theory Spec2Isabelle
  imports Complex_Main
begin

section \<open>GBS datasets: a shallow embedding of \<open>strawberryfields/gbs/data.py\<close>\<close>

subsection \<open>Python values and exceptions\<close>

text \<open>
  The exceptions that the methods of \<open>Dataset\<close> can raise, either themselves
  (\<open>TypeError\<close>, \<open>StopIteration\<close>) or through the library calls they make
  (\<open>IndexError\<close> from sparse row indexing, \<open>TypeError\<close> and \<open>ValueError\<close> from
  \<open>slice\<close>, \<open>AttributeError\<close> from a missing method, \<open>FileNotFoundError\<close> from
  loading).
\<close>

datatype error =
  TypeError | IndexError | ValueError | AttributeError | StopIteration | FileNotFoundError

text \<open>
  The keys that a caller can hand to \<open>__getitem__\<close>. Python is dynamically typed, so
  the key is a tagged value; \<open>isinstance\<close> inspects the tag. A \<open>bool\<close> is an
  instance of \<open>int\<close> in Python.
\<close>

datatype pyval =
    PNone
  | PBool bool
  | PInt int
  | PFloat real
  | PStr string
  | PSlice pyval pyval pyval
  | PTuple "pyval list"
  | PList "pyval list"

fun isinstance_int :: "pyval \<Rightarrow> bool" where
  "isinstance_int (PInt _) = True"
| "isinstance_int (PBool _) = True"
| "isinstance_int _ = False"

fun isinstance_slice :: "pyval \<Rightarrow> bool" where
  "isinstance_slice (PSlice _ _ _) = True"
| "isinstance_slice _ = False"

fun isinstance_tuple :: "pyval \<Rightarrow> bool" where
  "isinstance_tuple (PTuple _) = True"
| "isinstance_tuple _ = False"

text \<open>The integer value of an instance of \<open>int\<close> (\<open>False\<close> is 0 and \<open>True\<close> is 1).\<close>

fun int_value :: "pyval \<Rightarrow> int" where
  "int_value (PInt i) = i"
| "int_value (PBool b) = (if b then 1 else 0)"
| "int_value _ = 0"

fun tuple_items :: "pyval \<Rightarrow> pyval list" where
  "tuple_items (PTuple xs) = xs"
| "tuple_items _ = []"

subsection \<open>The builtins \<open>slice\<close> and \<open>range\<close>\<close>

text \<open>
  \<open>slice(*args)\<close> takes one to three arguments of any type:
  \<open>slice(stop)\<close>, \<open>slice(start, stop)\<close>, \<open>slice(start, stop, step)\<close>.
  Any other number of arguments is a \<open>TypeError\<close>.
\<close>

fun slice_new :: "pyval list \<Rightarrow> error + pyval" where
  "slice_new [stop] = Inr (PSlice PNone stop PNone)"
| "slice_new [start, stop] = Inr (PSlice start stop PNone)"
| "slice_new [start, stop, step] = Inr (PSlice start stop step)"
| "slice_new _ = Inl TypeError"

text \<open>
  A bound of a slice is \<open>None\<close> or has an \<open>__index__\<close> method (an \<open>int\<close> or a
  \<open>bool\<close> among the values here); anything else is a \<open>TypeError\<close>.
\<close>

fun evaluate_slice_index :: "pyval \<Rightarrow> error + int option" where
  "evaluate_slice_index PNone = Inr None"
| "evaluate_slice_index (PInt i) = Inr (Some i)"
| "evaluate_slice_index (PBool b) = Inr (Some (if b then 1 else 0))"
| "evaluate_slice_index _ = Inl TypeError"

text \<open>
  One bound of \<open>slice.indices\<close>: a missing bound takes the default, a negative one
  has the length added and is clamped from below, a non-negative one is clamped
  from above.
\<close>

definition clamp_bound :: "int option \<Rightarrow> int \<Rightarrow> int \<Rightarrow> int \<Rightarrow> int \<Rightarrow> int" where
  "clamp_bound b dflt lower upper len =
     (case b of
        None \<Rightarrow> dflt
      | Some v \<Rightarrow>
          if v < 0 then (if v + len < lower then lower else v + len)
          else (if v > upper then upper else v))"

text \<open>
  \<open>s.indices(length)\<close> for a non-negative length: the step is converted first (and
  must not be zero), then the start, then the stop.
\<close>

fun slice_indices :: "pyval \<Rightarrow> nat \<Rightarrow> error + (int \<times> int \<times> int)" where
  "slice_indices (PSlice start stop step) len =
     (case evaluate_slice_index step of
        Inl e \<Rightarrow> Inl e
      | Inr st \<Rightarrow>
          let stp = (case st of None \<Rightarrow> 1 | Some s \<Rightarrow> s) in
          if stp = 0 then Inl ValueError
          else
            let lower = (if stp < 0 then - 1 else 0);
                upper = (if stp < 0 then int len - 1 else int len)
            in
            (case evaluate_slice_index start of
               Inl e \<Rightarrow> Inl e
             | Inr a \<Rightarrow>
                 (case evaluate_slice_index stop of
                    Inl e \<Rightarrow> Inl e
                  | Inr b \<Rightarrow>
                      Inr (clamp_bound a (if stp < 0 then upper else lower) lower upper (int len),
                           clamp_bound b (if stp < 0 then lower else upper) lower upper (int len),
                           stp))))"
| "slice_indices _ len = Inl AttributeError"

text \<open>
  \<open>range(start, stop, step)\<close> for a non-zero step: its length, and its elements
  \<open>start + k * step\<close> in order.
\<close>

definition range_length :: "int \<Rightarrow> int \<Rightarrow> int \<Rightarrow> nat" where
  "range_length start stop step =
     (if 0 < step then (if start < stop then nat ((stop - start - 1) div step + 1) else 0)
      else (if stop < start then nat ((start - stop - 1) div (- step) + 1) else 0))"

definition py_range :: "int \<Rightarrow> int \<Rightarrow> int \<Rightarrow> int list" where
  "py_range start stop step =
     map (\<lambda>k. start + int k * step) [0 ..< range_length start stop step]"

text \<open>A list comprehension \<open>[f(i) for i in xs]\<close>: the first exception ends it.\<close>

fun comprehension :: "('a \<Rightarrow> error + 'b) \<Rightarrow> 'a list \<Rightarrow> error + 'b list" where
  "comprehension f [] = Inr []"
| "comprehension f (x # xs) =
     (case f x of
        Inl e \<Rightarrow> Inl e
      | Inr y \<Rightarrow> (case comprehension f xs of Inl e \<Rightarrow> Inl e | Inr ys \<Rightarrow> Inr (y # ys)))"

subsection \<open>The sparse sample matrix\<close>

text \<open>
  A \<open>scipy.sparse.csr_matrix\<close> is modelled by its shape and its rows in dense form;
  the compressed storage is not visible through the operations used by the module.
  An entry is the integer value that is stored; the matrix stores signed 64-bit
  integers.
\<close>

record 'a csr_matrix =
  nrows :: nat
  ncols :: nat
  dense :: "'a list list"

definition wf_csr :: "'a csr_matrix \<Rightarrow> bool" where
  "wf_csr m \<longleftrightarrow> length (dense m) = nrows m \<and> list_all (\<lambda>r. length r = ncols m) (dense m)"

text \<open>
  \<open>m[i].toarray()[0]\<close> for an integer \<open>i\<close>, where \<open>M\<close> is the number of rows.
  The row index of a sparse matrix is validated by the library itself: an index
  outside \<open>[-M, M)\<close> raises \<open>IndexError\<close>, and a negative index inside that
  range has \<open>M\<close> added, so it counts from the end. A \<open>bool\<close> index is used as
  its integer value.
\<close>

definition csr_getrow :: "'a csr_matrix \<Rightarrow> int \<Rightarrow> error + 'a list" where
  "csr_getrow m i =
     (let M = int (nrows m) in
      if i < - M \<or> M \<le> i then Inl IndexError
      else Inr (dense m ! nat (if i < 0 then i + M else i)))"

text \<open>
  The sum of an integer matrix is accumulated in the signed 64-bit integer type of
  the array library, which wraps around on overflow: \<open>wrap_int64\<close> is the value of
  an integer in two's complement on 64 bits, and \<open>sum_int64\<close> adds the entries one
  after the other in that type.
\<close>

definition wrap_int64 :: "int \<Rightarrow> int" where
  "wrap_int64 x = (x + 2 ^ 63) mod 2 ^ 64 - 2 ^ 63"

definition sum_int64 :: "int list \<Rightarrow> int" where
  "sum_int64 xs = fold (\<lambda>x acc. wrap_int64 (acc + x)) xs 0"

text \<open>
  \<open>m.sum(axis)\<close> flattened to a list: the axis must lie in \<open>[-2, 1]\<close>, a negative
  axis has 2 added; axis 0 sums each column over all rows, axis 1 sums each row.
\<close>

definition csr_sum :: "int csr_matrix \<Rightarrow> int \<Rightarrow> error + int list" where
  "csr_sum m axis =
     (if axis < - 2 \<or> 1 < axis then Inl ValueError
      else
        let ax = (if axis < 0 then axis + 2 else axis) in
        if ax = 0 then Inr (map (\<lambda>j. sum_int64 (map (\<lambda>r. r ! j) (dense m))) [0 ..< ncols m])
        else Inr (map sum_int64 (dense m)))"

subsection \<open>The class \<open>Dataset\<close>\<close>

text \<open>
  The attributes of an instance. \<open>count\<close> is the attribute \<open>_count\<close>, the cursor of
  the iteration; it starts at 0 and is only incremented or reset, so it is a
  natural number. Subclasses extend the record.
\<close>

record dataset =
  data :: "int csr_matrix"
  n_samples :: nat
  modes :: nat
  n_mean :: real
  threshold :: bool
  count :: nat

record graph_dataset = dataset +
  adj :: "int list list"

record molecule_dataset = dataset +
  w :: "real list"
  wp :: "real list"
  Ud :: "real list list"
  delta :: "real list"
  T :: real

text \<open>What \<open>__getitem__\<close> returns: one row for an integer key, a list of rows otherwise.\<close>

datatype item = Row "int list" | Rows "int list list"

text \<open>
  \<open>__init__\<close>: the sample matrix is loaded from the file named by the data
  directory and the filename stem, and the shape gives \<open>n_samples\<close> and \<open>modes\<close>.
  The loader stands for \<open>scipy.sparse.load_npz\<close> on the packaged files. \<open>n_mean\<close>
  and \<open>threshold\<close> are the constants of the leaf class.
\<close>

definition Dataset_init ::
  "(string \<Rightarrow> error + int csr_matrix) \<Rightarrow> string \<Rightarrow> string \<Rightarrow> real \<Rightarrow> bool \<Rightarrow>
     error + dataset" where
  "Dataset_init load_npz DATA_PATH data_filename nm th =
     (case load_npz (DATA_PATH @ data_filename @ ''.npz'') of
        Inl e \<Rightarrow> Inl e
      | Inr m \<Rightarrow>
          Inr \<lparr>data = m, n_samples = nrows m, modes = ncols m,
               n_mean = nm, threshold = th, count = 0\<rparr>)"

definition GraphDataset_init ::
  "(string \<Rightarrow> error + int csr_matrix) \<Rightarrow> string \<Rightarrow> string \<Rightarrow> real \<Rightarrow> bool \<Rightarrow>
     error + graph_dataset" where
  "GraphDataset_init load_npz DATA_PATH data_filename nm th =
     (case Dataset_init load_npz DATA_PATH data_filename nm th of
        Inl e \<Rightarrow> Inl e
      | Inr ds \<Rightarrow>
          (case load_npz (DATA_PATH @ data_filename @ ''_A.npz'') of
             Inl e \<Rightarrow> Inl e
           | Inr a \<Rightarrow> Inr (dataset.extend ds \<lparr>adj = dense a\<rparr>)))"

text \<open>
  The molecule arrays are stored as floating-point matrices; \<open>toarray()[0]\<close> takes
  the first row of the dense array and raises \<open>IndexError\<close> when there is none.
  \<open>T\<close> is a constant of the leaf class.
\<close>

definition first_row :: "'a csr_matrix \<Rightarrow> error + 'a list" where
  "first_row m = (case dense m of [] \<Rightarrow> Inl IndexError | r # _ \<Rightarrow> Inr r)"

definition MoleculeDataset_init ::
  "(string \<Rightarrow> error + int csr_matrix) \<Rightarrow> (string \<Rightarrow> error + real csr_matrix) \<Rightarrow>
     string \<Rightarrow> string \<Rightarrow> real \<Rightarrow> bool \<Rightarrow> real \<Rightarrow> error + molecule_dataset" where
  "MoleculeDataset_init load_npz load_npz_float DATA_PATH data_filename nm th temp =
     (case Dataset_init load_npz DATA_PATH data_filename nm th of
        Inl e \<Rightarrow> Inl e
      | Inr ds \<Rightarrow>
          (case load_npz_float (DATA_PATH @ data_filename @ ''_w.npz'') of
             Inl e \<Rightarrow> Inl e
           | Inr mw \<Rightarrow>
          (case first_row mw of
             Inl e \<Rightarrow> Inl e
           | Inr w0 \<Rightarrow>
          (case load_npz_float (DATA_PATH @ data_filename @ ''_wp.npz'') of
             Inl e \<Rightarrow> Inl e
           | Inr mwp \<Rightarrow>
          (case first_row mwp of
             Inl e \<Rightarrow> Inl e
           | Inr wp0 \<Rightarrow>
          (case load_npz_float (DATA_PATH @ data_filename @ ''_Ud.npz'') of
             Inl e \<Rightarrow> Inl e
           | Inr mud \<Rightarrow>
          (case load_npz_float (DATA_PATH @ data_filename @ ''_delta.npz'') of
             Inl e \<Rightarrow> Inl e
           | Inr md \<Rightarrow>
          (case first_row md of
             Inl e \<Rightarrow> Inl e
           | Inr delta0 \<Rightarrow>
               Inr (dataset.extend ds
                      \<lparr>w = w0, wp = wp0, Ud = dense mud, delta = delta0, T = temp\<rparr>)))))))))"

text \<open>
  The state of an instance after construction: the matrix is well formed and the
  two counts are its shape.
\<close>

definition constructed :: "'a dataset_scheme \<Rightarrow> bool" where
  "constructed ds \<longleftrightarrow>
     wf_csr (data ds) \<and> n_samples ds = nrows (data ds) \<and> modes ds = ncols (data ds)"

definition Dataset_iter :: "'a dataset_scheme \<Rightarrow> 'a dataset_scheme" where
  "Dataset_iter ds = ds"

definition Dataset_elem :: "'a dataset_scheme \<Rightarrow> int \<Rightarrow> error + int list" where
  "Dataset_elem ds i = csr_getrow (data ds) i"

definition Dataset_getitem :: "'a dataset_scheme \<Rightarrow> pyval \<Rightarrow> error + item" where
  "Dataset_getitem ds key =
     (if \<not> (isinstance_slice key \<or> isinstance_tuple key \<or> isinstance_int key) then Inl TypeError
      else if isinstance_int key then
        map_sum id Row
          (Dataset_elem ds
             (if int_value key < 0 then int_value key + int (n_samples ds) else int_value key))
      else
        (case (if isinstance_tuple key then slice_new (tuple_items key) else Inr key) of
           Inl e \<Rightarrow> Inl e
         | Inr key' \<Rightarrow>
             (case slice_indices key' (n_samples ds) of
                Inl e \<Rightarrow> Inl e
              | Inr (start, stop, step) \<Rightarrow>
                  map_sum id Rows (comprehension (Dataset_elem ds) (py_range start stop step)))))"

definition Dataset_next :: "'a dataset_scheme \<Rightarrow> (error + item) \<times> 'a dataset_scheme" where
  "Dataset_next ds =
     (if count ds < n_samples ds then
        (let ds' = ds\<lparr>count := count ds + 1\<rparr>
         in (Dataset_getitem ds' (PInt (int (count ds') - 1)), ds'))
      else (Inl StopIteration, ds\<lparr>count := 0\<rparr>))"

definition Dataset_len :: "'a dataset_scheme \<Rightarrow> nat" where
  "Dataset_len ds = n_samples ds"

definition Dataset_counts :: "'a dataset_scheme \<Rightarrow> int \<Rightarrow> error + int list" where
  "Dataset_counts ds axis = csr_sum (data ds) axis"

subsection \<open>Iterating over a dataset\<close>

text \<open>
  The iterator protocol as its callers use it. \<open>consume\<close> calls \<open>__next__\<close> until it
  raises: \<open>StopIteration\<close> ends the loop normally, any other exception leaves it.
  Every successful call moves the cursor closer to \<open>n_samples\<close>, so the loop ends.
\<close>

function consume :: "'a dataset_scheme \<Rightarrow> (error + item list) \<times> 'a dataset_scheme" where
  "consume ds =
     (case Dataset_next ds of
        (Inl e, ds') \<Rightarrow> if e = StopIteration then (Inr [], ds') else (Inl e, ds')
      | (Inr x, ds') \<Rightarrow>
          (case consume ds' of
             (Inl e, ds'') \<Rightarrow> (Inl e, ds'')
           | (Inr xs, ds'') \<Rightarrow> (Inr (x # xs), ds'')))"
  by pat_completeness auto
termination
proof (relation "measure (\<lambda>ds. n_samples ds - count ds)")
  show "wf (measure (\<lambda>ds. n_samples ds - count ds))"
    by simp
next
  fix ds :: "'a dataset_scheme" and r ds' x
  assume "(r, ds') = Dataset_next ds" and "r = Inr x"
  then show "(ds', ds) \<in> measure (\<lambda>ds. n_samples ds - count ds)"
    by (auto simp: Dataset_next_def Let_def split: if_splits)
qed

text \<open>\<open>list(ds)\<close>, or a \<open>for\<close> loop over \<open>ds\<close> that runs to its end.\<close>

definition py_list :: "'a dataset_scheme \<Rightarrow> (error + item list) \<times> 'a dataset_scheme" where
  "py_list ds = consume (Dataset_iter ds)"

text \<open>A partial iteration: \<open>k\<close> calls of \<open>__next__\<close>, ended early by an exception.\<close>

fun next_n :: "nat \<Rightarrow> 'a dataset_scheme \<Rightarrow> (error + item list) \<times> 'a dataset_scheme" where
  "next_n 0 ds = (Inr [], ds)"
| "next_n (Suc k) ds =
     (case Dataset_next ds of
        (Inl e, ds') \<Rightarrow> (Inl e, ds')
      | (Inr x, ds') \<Rightarrow>
          (case next_n k ds' of
             (Inl e, ds'') \<Rightarrow> (Inl e, ds'')
           | (Inr xs, ds'') \<Rightarrow> (Inr (x # xs), ds'')))"

subsection \<open>Sequences of method calls\<close>

text \<open>
  The public operations of an instance, as calls that take the instance and return
  an answer and the instance afterwards. Only \<open>__next__\<close> assigns to an attribute.
\<close>

datatype call = Call_getitem pyval | Call_counts int | Call_len | Call_iter | Call_next

datatype answer =
  Ans_item "error + item" | Ans_counts "error + int list" | Ans_len nat | Ans_self

fun call_method :: "'a dataset_scheme \<Rightarrow> call \<Rightarrow> answer \<times> 'a dataset_scheme" where
  "call_method ds (Call_getitem key) = (Ans_item (Dataset_getitem ds key), ds)"
| "call_method ds (Call_counts axis) = (Ans_counts (Dataset_counts ds axis), ds)"
| "call_method ds Call_len = (Ans_len (Dataset_len ds), ds)"
| "call_method ds Call_iter = (Ans_self, Dataset_iter ds)"
| "call_method ds Call_next = (case Dataset_next ds of (r, ds') \<Rightarrow> (Ans_item r, ds'))"

fun call_methods :: "'a dataset_scheme \<Rightarrow> call list \<Rightarrow> answer list \<times> 'a dataset_scheme" where
  "call_methods ds [] = ([], ds)"
| "call_methods ds (c # cs) =
     (case call_method ds c of
        (a, ds') \<Rightarrow> (case call_methods ds' cs of (as, ds'') \<Rightarrow> (a # as, ds'')))"

text \<open>A small dataset used to evaluate the definitions: three samples on two modes.\<close>

definition example_matrix :: "int csr_matrix" where
  "example_matrix = \<lparr>nrows = 3, ncols = 2, dense = [[1, 0], [0, 2], [3, 4]]\<rparr>"

definition example_ds :: dataset where
  "example_ds = \<lparr>data = example_matrix, n_samples = 3, modes = 2,
                 n_mean = 8, threshold = True, count = 0\<rparr>"

definition example_graph :: graph_dataset where
  "example_graph = dataset.extend example_ds \<lparr>adj = [[0, 1], [1, 0]]\<rparr>"


section \<open>Properties\<close>

lemma constructed_example: "constructed example_ds"
  by (simp add: constructed_def example_ds_def example_matrix_def wf_csr_def)

lemma elem_in_range:
  assumes "constructed ds" and "0 \<le> i" and "i < int (n_samples ds)"
  shows "Dataset_elem ds i = Inr (dense (data ds) ! nat i)"
  using assms by (simp add: Dataset_elem_def csr_getrow_def constructed_def)

text \<open>
  Claim C3. For a constructed dataset and \<open>0 \<le> i < n_samples\<close>, the keys \<open>i\<close> and
  \<open>-(n_samples - i)\<close> address the same row, and that row is returned.
\<close>

theorem getitem_negative_index:
  assumes "constructed ds" and "0 \<le> i" and "i < int (n_samples ds)"
  shows "Dataset_getitem ds (PInt i) = Dataset_getitem ds (PInt (- (int (n_samples ds) - i)))
       \<and> Dataset_getitem ds (PInt i) = Inr (Row (dense (data ds) ! nat i))"
  using assms elem_in_range [OF assms] by (simp add: Dataset_getitem_def)

theorem getitem_negative_index_witness:
  "Dataset_getitem example_ds (PInt 1) = Dataset_getitem example_ds (PInt (- 2))
 \<and> Dataset_getitem example_ds (PInt 1) = Inr (Row [0, 2])"
  using getitem_negative_index [OF constructed_example, of 1]
  by (simp add: example_ds_def example_matrix_def Dataset_getitem_def Dataset_elem_def
      csr_getrow_def)

lemma div_mult_le_int: "0 < b \<Longrightarrow> a div b * b \<le> (a::int)"
proof -
  assume b: "0 < b"
  have "a div b * b + a mod b = a" by (rule div_mult_mod_eq)
  moreover have "0 \<le> a mod b" using b by (rule pos_mod_sign)
  ultimately show ?thesis by linarith
qed

lemma py_range_pos:
  assumes "0 < st" and "x \<in> set (py_range s t st)"
  shows "s \<le> x \<and> x < t"
proof -
  from assms(2) obtain k where k: "k < range_length s t st" and x: "x = s + int k * st"
    by (auto simp: py_range_def)
  from k assms(1) have lt: "s < t" and kd: "int k \<le> (t - s - 1) div st"
    by (auto simp: range_length_def split: if_splits)
  have "int k * st \<le> ((t - s - 1) div st) * st"
    using kd assms(1) by (simp add: mult_right_mono)
  also have "\<dots> \<le> t - s - 1"
    using assms(1) by (rule div_mult_le_int)
  finally have "int k * st \<le> t - s - 1" .
  moreover have "0 \<le> int k * st" using assms(1) by simp
  ultimately show ?thesis using x by linarith
qed

lemma py_range_neg:
  assumes "st < 0" and "x \<in> set (py_range s t st)"
  shows "t < x \<and> x \<le> s"
proof -
  from assms(2) obtain k where k: "k < range_length s t st" and x: "x = s + int k * st"
    by (auto simp: py_range_def)
  from k assms(1) have kd: "int k \<le> (s - t - 1) div (- st)"
    by (auto simp: range_length_def split: if_splits)
  have "int k * (- st) \<le> ((s - t - 1) div (- st)) * (- st)"
    using kd assms(1) by (simp add: mult_right_mono)
  also have "\<dots> \<le> s - t - 1"
    by (rule div_mult_le_int) (use assms(1) in simp)
  finally have "int k * (- st) \<le> s - t - 1" .
  moreover have "0 \<le> int k * (- st)" using assms(1) by (simp add: mult_nonneg_nonneg del: mult_minus_right)
  moreover have "int k * (- st) = - (int k * st)" by simp
  ultimately show ?thesis using x by linarith
qed


lemma clamp_bound_pos:
  "0 \<le> clamp_bound b 0 0 (int n) (int n) \<and> clamp_bound b 0 0 (int n) (int n) \<le> int n"
  "0 \<le> clamp_bound b (int n) 0 (int n) (int n) \<and> clamp_bound b (int n) 0 (int n) (int n) \<le> int n"
  by (auto simp: clamp_bound_def split: option.splits)

lemma clamp_bound_neg:
  "- 1 \<le> clamp_bound b (int n - 1) (- 1) (int n - 1) (int n)
     \<and> clamp_bound b (int n - 1) (- 1) (int n - 1) (int n) \<le> int n - 1"
  "- 1 \<le> clamp_bound b (- 1) (- 1) (int n - 1) (int n)
     \<and> clamp_bound b (- 1) (- 1) (int n - 1) (int n) \<le> int n - 1"
  by (auto simp: clamp_bound_def split: option.splits)

lemma slice_indices_bounds:
  assumes "slice_indices key n = Inr (s, t, st)"
  shows "st \<noteq> 0"
    and "0 < st \<Longrightarrow> 0 \<le> s \<and> t \<le> int n"
    and "st < 0 \<Longrightarrow> - 1 \<le> t \<and> s \<le> int n - 1"
proof -
  obtain a b c where key: "key = PSlice a b c"
    using assms by (cases key) auto
  from assms key obtain co ao bo where
    c: "evaluate_slice_index c = Inr co" and a: "evaluate_slice_index a = Inr ao"
    and b: "evaluate_slice_index b = Inr bo"
    by (auto simp: Let_def split: sum.splits if_splits)
  define stp where "stp = (case co of None \<Rightarrow> 1 | Some v \<Rightarrow> v)"
  from assms key c a b have nz: "stp \<noteq> 0" and st: "st = stp"
    and s: "s = clamp_bound ao (if stp < 0 then int n - 1 else 0)
                  (if stp < 0 then - 1 else 0) (if stp < 0 then int n - 1 else int n) (int n)"
    and t: "t = clamp_bound bo (if stp < 0 then - 1 else int n)
                  (if stp < 0 then - 1 else 0) (if stp < 0 then int n - 1 else int n) (int n)"
    by (auto simp: Let_def stp_def split: if_splits)
  show "st \<noteq> 0" using nz st by simp
  show "0 \<le> s \<and> t \<le> int n" if "0 < st"
    using that st s t clamp_bound_pos [of ao n] clamp_bound_pos [of bo n] by simp
  show "- 1 \<le> t \<and> s \<le> int n - 1" if "st < 0"
    using that st s t clamp_bound_neg [of ao n] clamp_bound_neg [of bo n] by simp
qed

lemma slice_indices_in_range:
  assumes "slice_indices key n = Inr (s, t, st)" and "x \<in> set (py_range s t st)"
  shows "0 \<le> x \<and> x < int n"
proof (cases "0 < st")
  case True
  with slice_indices_bounds(2) [OF assms(1)] py_range_pos [OF True assms(2)]
  show ?thesis by linarith
next
  case False
  with slice_indices_bounds(1) [OF assms(1)] have neg: "st < 0" by simp
  with slice_indices_bounds(3) [OF assms(1)] py_range_neg [OF neg assms(2)]
  show ?thesis by linarith
qed

lemma comprehension_Inr:
  "(\<And>x. x \<in> set xs \<Longrightarrow> f x = Inr (g x)) \<Longrightarrow> comprehension f xs = Inr (map g xs)"
  by (induction xs) simp_all

lemma getitem_int_in_range:
  assumes "constructed ds" and "0 \<le> i" and "i < int (n_samples ds)"
  shows "Dataset_getitem ds (PInt i) = Inr (Row (dense (data ds) ! nat i))"
  using elem_in_range [OF assms] assms(2) by (simp add: Dataset_getitem_def)

text \<open>
  Claim C2. For a constructed dataset, a slice key whose bounds normalise against
  \<open>n_samples\<close> to \<open>(start, stop, step)\<close> returns the rows that collecting
  \<open>get(i)\<close> for \<open>i\<close> in \<open>range(start, stop, step)\<close> gives, in that order (so an
  empty range gives an empty list); a slice whose normalisation raises (a zero step,
  a bound that is no integer) raises the same exception.
\<close>

theorem getitem_slice:
  assumes "constructed ds"
  shows "case slice_indices (PSlice a b c) (n_samples ds) of
           Inl e \<Rightarrow> Dataset_getitem ds (PSlice a b c) = Inl e
         | Inr (start, stop, step) \<Rightarrow>
             (\<exists>rows.
                Dataset_getitem ds (PSlice a b c) = Inr (Rows rows)
              \<and> comprehension (\<lambda>i. Dataset_getitem ds (PInt i)) (py_range start stop step)
                  = Inr (map Row rows)
              \<and> length rows = length (py_range start stop step))"
proof (cases "slice_indices (PSlice a b c) (n_samples ds)")
  case (Inl e)
  then show ?thesis by (simp add: Dataset_getitem_def)
next
  case (Inr r)
  obtain s t st where r: "r = (s, t, st)" by (cases r) auto
  let ?rows = "map (\<lambda>i. dense (data ds) ! nat i) (py_range s t st)"
  have rng: "0 \<le> x \<and> x < int (n_samples ds)" if "x \<in> set (py_range s t st)" for x
    using slice_indices_in_range [OF Inr [unfolded r] that] .
  have "comprehension (Dataset_elem ds) (py_range s t st) = Inr ?rows"
    by (rule comprehension_Inr) (use rng elem_in_range [OF assms] in blast)
  then have 1: "Dataset_getitem ds (PSlice a b c) = Inr (Rows ?rows)"
    using Inr r by (simp add: Dataset_getitem_def)
  have "comprehension (\<lambda>i. Dataset_getitem ds (PInt i)) (py_range s t st)
          = Inr (map (\<lambda>i. Row (dense (data ds) ! nat i)) (py_range s t st))"
    by (rule comprehension_Inr) (use rng getitem_int_in_range [OF assms] in blast)
  then have 2: "comprehension (\<lambda>i. Dataset_getitem ds (PInt i)) (py_range s t st)
          = Inr (map Row ?rows)"
    by (simp add: comp_def)
  show ?thesis using Inr r 1 2 by simp
qed


theorem getitem_slice_witness:
  "constructed example_ds
 \<and> slice_indices (PSlice (PInt (- 2)) PNone PNone) (n_samples example_ds) = Inr (1, 3, 1)
 \<and> Dataset_getitem example_ds (PSlice (PInt (- 2)) PNone PNone) = Inr (Rows [[0, 2], [3, 4]])
 \<and> comprehension (\<lambda>i. Dataset_getitem example_ds (PInt i)) (py_range 1 3 1)
      = Inr (map Row [[0, 2], [3, 4]])"
proof -
  have i: "slice_indices (PSlice (PInt (- 2)) PNone PNone) (n_samples example_ds) = Inr (1, 3, 1)"
    by code_simp
  have v: "Dataset_getitem example_ds (PSlice (PInt (- 2)) PNone PNone)
             = Inr (Rows [[0, 2], [3, 4]])"
    by code_simp
  from getitem_slice [OF constructed_example, of "PInt (- 2)" PNone PNone]
  show ?thesis
    unfolding i using v constructed_example i by auto
qed

lemma constructed_count [simp]: "constructed (ds\<lparr>count := k\<rparr>) = constructed ds"
  by (simp add: constructed_def)

lemma next_in_range:
  assumes "constructed ds" and "count ds < n_samples ds"
  shows "Dataset_next ds
           = (Inr (Row (dense (data ds) ! count ds)), ds\<lparr>count := count ds + 1\<rparr>)"
proof -
  have "Dataset_getitem (ds\<lparr>count := count ds + 1\<rparr>) (PInt (int (count ds)))
          = Inr (Row (dense (data ds) ! count ds))"
    using getitem_int_in_range [of "ds\<lparr>count := count ds + 1\<rparr>" "int (count ds)"] assms
    by simp
  then show ?thesis using assms(2) by (simp add: Dataset_next_def Let_def)
qed

lemma next_exhausted:
  "\<not> count ds < n_samples ds \<Longrightarrow> Dataset_next ds = (Inl StopIteration, ds\<lparr>count := 0\<rparr>)"
  by (simp add: Dataset_next_def)

lemma consume_from:
  assumes "constructed ds" and "count ds \<le> n_samples ds"
  shows "consume ds
           = (Inr (map (\<lambda>k. Row (dense (data ds) ! k)) [count ds ..< n_samples ds]),
              ds\<lparr>count := 0\<rparr>)"
  using assms
proof (induction "n_samples ds - count ds" arbitrary: ds)
  case 0
  then have "\<not> count ds < n_samples ds" by simp
  then show ?case
    using 0 by (subst consume.simps) (simp add: next_exhausted)
next
  case (Suc d)
  then have lt: "count ds < n_samples ds" by simp
  let ?ds' = "ds\<lparr>count := count ds + 1\<rparr>"
  have IH: "consume ?ds'
              = (Inr (map (\<lambda>k. Row (dense (data ds) ! k)) [count ds + 1 ..< n_samples ds]),
                 ds\<lparr>count := 0\<rparr>)"
    using Suc.hyps(1) [of ?ds'] Suc.hyps(2) Suc.prems lt by simp
  have "[count ds ..< n_samples ds] = count ds # [count ds + 1 ..< n_samples ds]"
    using lt by (simp add: upt_conv_Cons)
  then show ?case
    using IH next_in_range [OF Suc.prems(1) lt] by (subst consume.simps) simp
qed

lemma next_n_from:
  assumes "constructed ds" and "count ds + k \<le> n_samples ds"
  shows "next_n k ds
           = (Inr (map (\<lambda>j. Row (dense (data ds) ! j)) [count ds ..< count ds + k]),
              ds\<lparr>count := count ds + k\<rparr>)"
  using assms
proof (induction k arbitrary: ds)
  case 0
  then show ?case by simp
next
  case (Suc k)
  then have lt: "count ds < n_samples ds" by simp
  let ?ds' = "ds\<lparr>count := count ds + 1\<rparr>"
  have IH: "next_n k ?ds'
              = (Inr (map (\<lambda>j. Row (dense (data ds) ! j)) [count ds + 1 ..< count ds + 1 + k]),
                 ds\<lparr>count := count ds + 1 + k\<rparr>)"
    using Suc.IH [of ?ds'] Suc.prems by simp
  have "[count ds ..< count ds + Suc k] = count ds # [count ds + 1 ..< count ds + 1 + k]"
    by (simp add: upt_conv_Cons)
  then show ?case
    using IH next_in_range [OF Suc.prems(1) lt] by simp
qed

text \<open>
  Claim C4. Iterating a freshly constructed dataset to its end yields the rows
  \<open>get(0)\<close>, ..., \<open>get(n_samples - 1)\<close> in that order, as many as \<open>len\<close> says,
  and leaves the cursor at 0, so that a second full iteration yields the same rows.
\<close>

theorem iterate_twice:
  assumes "constructed ds" and "count ds = 0"
  shows "\<exists>items.
           py_list ds = (Inr items, ds)
         \<and> map Inr items = map (\<lambda>k. Dataset_getitem ds (PInt (int k))) [0 ..< n_samples ds]
         \<and> length items = Dataset_len ds
         \<and> count (snd (py_list ds)) = 0
         \<and> py_list (snd (py_list ds)) = (Inr items, ds)"
proof -
  let ?items = "map (\<lambda>k. Row (dense (data ds) ! k)) [0 ..< n_samples ds]"
  have ds0: "ds\<lparr>count := 0\<rparr> = ds" using assms(2) by simp
  have 1: "py_list ds = (Inr ?items, ds)"
    using consume_from [OF assms(1)] assms(2) ds0 by (simp add: py_list_def Dataset_iter_def)
  have 2: "map Inr ?items = map (\<lambda>k. Dataset_getitem ds (PInt (int k))) [0 ..< n_samples ds]"
    using getitem_int_in_range [OF assms(1)] by simp
  show ?thesis using 1 2 assms(2) by (simp add: Dataset_len_def)
qed

theorem iterate_twice_witness:
  "constructed example_ds \<and> count example_ds = 0
 \<and> py_list example_ds = (Inr [Row [1, 0], Row [0, 2], Row [3, 4]], example_ds)
 \<and> py_list (snd (py_list example_ds)) = (Inr [Row [1, 0], Row [0, 2], Row [3, 4]], example_ds)
 \<and> Dataset_len example_ds = 3"
proof -
  have c: "count example_ds = 0" by (simp add: example_ds_def)
  have n: "[0 ..< n_samples example_ds] = [0, 1, 2]" by code_simp
  have g: "map (\<lambda>k. Dataset_getitem example_ds (PInt (int k))) [0, 1, 2]
             = map Inr [Row [1, 0], Row [0, 2], Row [3, 4]]"
    by code_simp
  from iterate_twice [OF constructed_example c] obtain items where
    i: "py_list example_ds = (Inr items, example_ds)"
      "map Inr items = map (\<lambda>k. Dataset_getitem example_ds (PInt (int k))) [0 ..< n_samples example_ds]"
      "length items = Dataset_len example_ds"
      "py_list (snd (py_list example_ds)) = (Inr items, example_ds)"
    by blast
  from i(2) have "map Inr items = (map Inr [Row [1, 0], Row [0, 2], Row [3, 4]] :: (error + item) list)"
    unfolding n g .
  then have "items = [Row [1, 0], Row [0, 2], Row [3, 4]]"
    by (auto simp: map_eq_Cons_conv)
  with i constructed_example c show ?thesis by simp
qed


subsection \<open>Construction\<close>

lemma Dataset_init_constructed:
  assumes "Dataset_init load_npz DATA_PATH data_filename nm th = Inr ds"
    and "\<And>path m. load_npz path = Inr m \<Longrightarrow> wf_csr m"
  shows "constructed ds \<and> count ds = 0 \<and> n_mean ds = nm \<and> threshold ds = th"
  using assms by (auto simp: Dataset_init_def constructed_def split: sum.splits)

lemma GraphDataset_init_constructed:
  assumes "GraphDataset_init load_npz DATA_PATH data_filename nm th = Inr g"
    and "\<And>path m. load_npz path = Inr m \<Longrightarrow> wf_csr m"
  shows "constructed g \<and> count g = 0"
proof (cases "Dataset_init load_npz DATA_PATH data_filename nm th")
  case (Inl e)
  with assms(1) show ?thesis by (simp add: GraphDataset_init_def)
next
  case (Inr ds)
  with assms(1) obtain a :: "int csr_matrix" where g: "g = dataset.extend ds \<lparr>adj = dense a\<rparr>"
    by (cases "load_npz (DATA_PATH @ data_filename @ ''_A.npz'')") (auto simp: GraphDataset_init_def)
  from Dataset_init_constructed [OF Inr assms(2)] g show ?thesis
    by (simp add: constructed_def dataset.defs)
qed

lemma getitem_full_slice:
  assumes "constructed ds"
  shows "Dataset_getitem ds (PSlice PNone PNone PNone) = Inr (Rows (dense (data ds)))"
proof -
  let ?n = "n_samples ds"
  let ?rows = "dense (data ds)"
  have len: "?n = length ?rows"
    using assms by (simp add: constructed_def wf_csr_def)
  have r: "py_range 0 (int ?n) 1 = map int [0 ..< ?n]"
    by (simp add: py_range_def range_length_def)
  have c: "comprehension (Dataset_elem ds) (map int [0 ..< ?n])
          = Inr (map (\<lambda>i. ?rows ! nat i) (map int [0 ..< ?n]))"
    by (rule comprehension_Inr) (use elem_in_range [OF assms] in auto)
  have "map (\<lambda>i. ?rows ! nat i) (map int [0 ..< length ?rows]) = ?rows"
    by (simp add: comp_def map_nth)
  then have "map (\<lambda>i. ?rows ! nat i) (map int [0 ..< ?n]) = ?rows"
    using len by simp
  with c show ?thesis
    using r by (simp add: Dataset_getitem_def clamp_bound_def)
qed

subsection \<open>Integer keys, tuples, calls, counts and the cursor\<close>

lemma getitem_int_outside:
  assumes "constructed ds" and "int (n_samples ds) \<le> i \<or> i < - 2 * int (n_samples ds)"
  shows "Dataset_getitem ds (PInt i) = Inl IndexError"
  using assms by (auto simp: Dataset_getitem_def Dataset_elem_def csr_getrow_def constructed_def)

lemma getitem_int_below:
  assumes "constructed ds" and "- 2 * int (n_samples ds) \<le> i" and "i < - int (n_samples ds)"
  shows "Dataset_getitem ds (PInt i) = Inr (Row (dense (data ds) ! nat (i + 2 * int (n_samples ds))))"
  using assms
  by (auto simp: Dataset_getitem_def Dataset_elem_def csr_getrow_def constructed_def add.commute)

text \<open>
  Claim C1. An integer key outside \<open>[-n_samples, n_samples)\<close> does not always
  raise: \<open>__getitem__\<close> adds \<open>n_samples\<close> to a negative key and the sparse matrix
  then counts a still negative index from the end once more. On the dataset of three
  samples the key \<open>-4\<close> returns the last row. The two lemmas above give the general
  picture: keys in \<open>[-2 * n_samples, -n_samples)\<close> return a row, all other keys
  outside \<open>[-n_samples, n_samples)\<close>, among them \<open>n_samples\<close>, raise \<open>IndexError\<close>.
\<close>

theorem getitem_below_range_returns_row:
  "constructed example_ds \<and> - 4 < - int (n_samples example_ds)
 \<and> Dataset_getitem example_ds (PInt (- 4)) = Inr (Row [3, 4])"
  using constructed_example
  by (simp add: example_ds_def example_matrix_def Dataset_getitem_def Dataset_elem_def
      csr_getrow_def)

text \<open>
  Claim C6. A key that is neither an integer, nor a slice, nor a tuple raises
  \<open>TypeError\<close>, on any dataset; a float and a string are such keys.
\<close>

theorem getitem_unsupported_key:
  "(\<not> isinstance_slice key \<and> \<not> isinstance_tuple key \<and> \<not> isinstance_int key
      \<longrightarrow> Dataset_getitem ds key = Inl TypeError)
 \<and> Dataset_getitem ds (PFloat x) = Inl TypeError
 \<and> Dataset_getitem ds (PStr s) = Inl TypeError"
  by (simp add: Dataset_getitem_def)

theorem getitem_unsupported_key_witness:
  "\<not> isinstance_slice PNone \<and> \<not> isinstance_tuple PNone \<and> \<not> isinstance_int PNone
 \<and> Dataset_getitem example_ds PNone = Inl TypeError
 \<and> Dataset_getitem example_ds (PFloat (3 / 2)) = Inl TypeError
 \<and> Dataset_getitem example_ds (PStr ''1'') = Inl TypeError"
  using getitem_unsupported_key [of PNone example_ds "3 / 2" "''1''"] by simp

text \<open>
  Claim C7. A tuple key behaves as the slice built from its elements: with one to
  three elements the slice exists and the tuple returns what that slice returns; with
  more than three elements (and with none) building the slice raises \<open>TypeError\<close>,
  and so does the lookup.
\<close>

theorem getitem_tuple:
  "Dataset_getitem ds (PTuple xs)
     = (case slice_new xs of Inl e \<Rightarrow> Inl e | Inr key \<Rightarrow> Dataset_getitem ds key)
 \<and> (1 \<le> length xs \<and> length xs \<le> 3 \<longrightarrow>
      (\<exists>a b c. slice_new xs = Inr (PSlice a b c)
         \<and> Dataset_getitem ds (PTuple xs) = Dataset_getitem ds (PSlice a b c)))
 \<and> (3 < length xs \<longrightarrow>
      slice_new xs = Inl TypeError \<and> Dataset_getitem ds (PTuple xs) = Inl TypeError)"
proof -
  have new: "slice_new xs = Inl TypeError \<or> (\<exists>a b c. slice_new xs = Inr (PSlice a b c))"
    by (cases xs rule: slice_new.cases) simp_all
  have 1: "Dataset_getitem ds (PTuple xs)
     = (case slice_new xs of Inl e \<Rightarrow> Inl e | Inr key \<Rightarrow> Dataset_getitem ds key)"
    using new by (auto simp: Dataset_getitem_def)
  have 2: "\<exists>a b c. slice_new xs = Inr (PSlice a b c)" if "1 \<le> length xs" "length xs \<le> 3"
    using that by (cases xs rule: slice_new.cases) simp_all
  have 3: "slice_new xs = Inl TypeError" if "3 < length xs"
    using that by (cases xs rule: slice_new.cases) simp_all
  show ?thesis using 1 2 3 by auto
qed

theorem getitem_tuple_witness:
  "1 \<le> length [PInt 1, PInt 3] \<and> length [PInt 1, PInt 3] \<le> 3
 \<and> slice_new [PInt 1, PInt 3] = Inr (PSlice (PInt 1) (PInt 3) PNone)
 \<and> Dataset_getitem example_ds (PTuple [PInt 1, PInt 3])
      = Dataset_getitem example_ds (PSlice (PInt 1) (PInt 3) PNone)
 \<and> Dataset_getitem example_ds (PTuple [PInt 1, PInt 3]) = Inr (Rows [[0, 2], [3, 4]])
 \<and> 3 < length [PInt 0, PInt 3, PInt 1, PInt 1]
 \<and> Dataset_getitem example_ds (PTuple [PInt 0, PInt 3, PInt 1, PInt 1]) = Inl TypeError"
proof -
  have v: "Dataset_getitem example_ds (PSlice (PInt 1) (PInt 3) PNone) = Inr (Rows [[0, 2], [3, 4]])"
    by code_simp
  show ?thesis
    using getitem_tuple [of example_ds "[PInt 1, PInt 3]"]
      getitem_tuple [of example_ds "[PInt 0, PInt 3, PInt 1, PInt 1]"] v
    by simp
qed

text \<open>
  Claim C9. A boolean key passes the integer check: on a constructed dataset of at
  least two samples \<open>False\<close> returns row 0 and \<open>True\<close> returns row 1, as the keys
  0 and 1 do.
\<close>

theorem getitem_bool:
  assumes "constructed ds" and "2 \<le> n_samples ds"
  shows "Dataset_getitem ds (PBool False) = Inr (Row (dense (data ds) ! 0))
       \<and> Dataset_getitem ds (PBool True) = Inr (Row (dense (data ds) ! 1))
       \<and> Dataset_getitem ds (PBool False) = Dataset_getitem ds (PInt 0)
       \<and> Dataset_getitem ds (PBool True) = Dataset_getitem ds (PInt 1)"
  using assms elem_in_range [OF assms(1), of 0] elem_in_range [OF assms(1), of 1]
  by (simp add: Dataset_getitem_def)

theorem getitem_bool_witness:
  "constructed example_ds \<and> 2 \<le> n_samples example_ds
 \<and> Dataset_getitem example_ds (PBool False) = Inr (Row [1, 0])
 \<and> Dataset_getitem example_ds (PBool True) = Inr (Row [0, 2])"
proof -
  have n: "2 \<le> n_samples example_ds" by (simp add: example_ds_def)
  show ?thesis
    using getitem_bool [OF constructed_example n] constructed_example n
    by (simp add: example_ds_def example_matrix_def)
qed

lemma call_method_frame:
  "call_method ds c = (a, ds') \<Longrightarrow> ds' = ds\<lparr>count := count ds'\<rparr>"
  by (cases c) (auto simp: Dataset_iter_def Dataset_next_def Let_def split: if_splits)

lemma call_methods_frame:
  "call_methods ds cs = (as, ds') \<Longrightarrow> ds' = ds\<lparr>count := count ds'\<rparr>"
proof (induction cs arbitrary: ds as ds')
  case Nil
  then show ?case by simp
next
  case (Cons c cs)
  obtain a d where c: "call_method ds c = (a, d)" by (cases "call_method ds c")
  obtain bs d' where cs: "call_methods d cs = (bs, d')" by (cases "call_methods d cs")
  from Cons.prems c cs have e: "ds' = d'" by simp
  from call_method_frame [OF c] have 1: "d = ds\<lparr>count := count d\<rparr>" .
  from Cons.IH [OF cs] have 2: "d' = d\<lparr>count := count d'\<rparr>" .
  have "d' = ds\<lparr>count := count d'\<rparr>"
    by (subst 2, subst 1) simp
  with e show ?case by simp
qed

text \<open>
  Claim C8. After any sequence of calls of \<open>__getitem__\<close>, \<open>counts\<close>, \<open>__len__\<close>,
  \<open>__iter__\<close> and \<open>__next__\<close> the attributes \<open>data\<close>, \<open>n_samples\<close>, \<open>modes\<close>,
  \<open>n_mean\<close> and \<open>threshold\<close> are what they were, and so are the attributes that a
  subclass adds (the extension of the record); only the cursor can differ.
\<close>

theorem attributes_unchanged:
  "data (snd (call_methods ds cs)) = data ds
 \<and> n_samples (snd (call_methods ds cs)) = n_samples ds
 \<and> modes (snd (call_methods ds cs)) = modes ds
 \<and> n_mean (snd (call_methods ds cs)) = n_mean ds
 \<and> threshold (snd (call_methods ds cs)) = threshold ds
 \<and> dataset.more (snd (call_methods ds cs)) = dataset.more ds"
proof -
  obtain as ds' where r: "call_methods ds cs = (as, ds')" by (cases "call_methods ds cs")
  from call_methods_frame [OF r] have "ds' = ds\<lparr>count := count ds'\<rparr>" .
  then have "data ds' = data ds \<and> n_samples ds' = n_samples ds \<and> modes ds' = modes ds
     \<and> n_mean ds' = n_mean ds \<and> threshold ds' = threshold ds \<and> dataset.more ds' = dataset.more ds"
    by (metis dataset.select_convs dataset.surjective dataset.update_convs(6))
  with r show ?thesis by simp
qed


theorem attributes_unchanged_witness:
  "dataset.more (snd (call_methods example_graph
       [Call_next, Call_getitem (PInt 5), Call_iter, Call_next])) = dataset.more example_graph
 \<and> data (snd (call_methods example_graph
       [Call_next, Call_getitem (PInt 5), Call_iter, Call_next])) = data example_graph
 \<and> count (snd (call_methods example_graph
       [Call_next, Call_getitem (PInt 5), Call_iter, Call_next])) = 2"
proof -
  have c: "count (snd (call_methods example_graph
             [Call_next, Call_getitem (PInt 5), Call_iter, Call_next])) = 2"
    by code_simp
  from attributes_unchanged
         [of example_graph "[Call_next, Call_getitem (PInt 5), Call_iter, Call_next]"]
  show ?thesis
    using c by blast
qed

lemma nth_dense_length:
  "wf_csr m \<Longrightarrow> k < nrows m \<Longrightarrow> length (dense m ! k) = ncols m"
  by (simp add: wf_csr_def list_all_length)








text \<open>
  Claim C10. \<open>__iter__\<close> returns the instance as it is, cursor included. After a
  partial iteration of \<open>k\<close> rows of a fresh dataset the cursor is \<open>k\<close>, and a new
  iteration started then yields the rows from \<open>k\<close> on, not from 0. \<open>__next__\<close> moves
  the cursor forward while rows remain and resets it to 0 only at the end.
\<close>

theorem iter_resumes:
  assumes "constructed ds" and "count ds = 0" and "k \<le> n_samples ds"
  shows "Dataset_iter ds = ds
       \<and> next_n k (Dataset_iter ds)
           = (Inr (map (\<lambda>j. Row (dense (data ds) ! j)) [0 ..< k]), ds\<lparr>count := k\<rparr>)
       \<and> Dataset_iter (ds\<lparr>count := k\<rparr>) = ds\<lparr>count := k\<rparr>
       \<and> py_list (ds\<lparr>count := k\<rparr>)
           = (Inr (map (\<lambda>j. Row (dense (data ds) ! j)) [k ..< n_samples ds]), ds)
       \<and> (k < n_samples ds \<longrightarrow>
            count (snd (Dataset_next (ds\<lparr>count := k\<rparr>))) = k + 1)
       \<and> count (snd (Dataset_next (ds\<lparr>count := n_samples ds\<rparr>))) = 0"
proof -
  have 1: "Dataset_iter d = d" for d :: "'a dataset_scheme"
    by (simp add: Dataset_iter_def)
  have 2: "next_n k ds
             = (Inr (map (\<lambda>j. Row (dense (data ds) ! j)) [0 ..< k]), ds\<lparr>count := k\<rparr>)"
    using next_n_from [OF assms(1), of k] assms(2,3) by simp
  have ds0: "ds\<lparr>count := 0\<rparr> = ds" using assms(2) by simp
  have 3: "py_list (ds\<lparr>count := k\<rparr>)
             = (Inr (map (\<lambda>j. Row (dense (data ds) ! j)) [k ..< n_samples ds]), ds)"
    using consume_from [of "ds\<lparr>count := k\<rparr>"] assms(1,3) ds0 by (simp add: py_list_def 1)
  have 4: "count (snd (Dataset_next (ds\<lparr>count := k\<rparr>))) = k + 1" if "k < n_samples ds"
    using that by (simp add: Dataset_next_def Let_def)
  have 5: "count (snd (Dataset_next (ds\<lparr>count := n_samples ds\<rparr>))) = 0"
    by (simp add: Dataset_next_def)
  show ?thesis using 1 2 3 4 5 by simp
qed

theorem iter_resumes_witness:
  "constructed example_ds \<and> count example_ds = 0 \<and> 1 \<le> n_samples example_ds
 \<and> Dataset_iter example_ds = example_ds
 \<and> next_n 1 (Dataset_iter example_ds) = (Inr [Row [1, 0]], example_ds\<lparr>count := 1\<rparr>)
 \<and> py_list (example_ds\<lparr>count := 1\<rparr>) = (Inr [Row [0, 2], Row [3, 4]], example_ds)
 \<and> count (snd (Dataset_next (example_ds\<lparr>count := 1\<rparr>))) = 1 + 1"
proof -
  have c: "count example_ds = 0" and n: "1 \<le> n_samples example_ds"
    and lt: "1 < n_samples example_ds"
    by (simp_all add: example_ds_def)
  have l1: "map (\<lambda>j. Row (dense (data example_ds) ! j)) [0 ..< 1] = [Row [1, 0]]"
    by (simp add: example_ds_def example_matrix_def)
  have "[1 ..< n_samples example_ds] = [1, 2]" by code_simp
  then have l2: "map (\<lambda>j. Row (dense (data example_ds) ! j)) [1 ..< n_samples example_ds]
                   = [Row [0, 2], Row [3, 4]]"
    by (simp add: example_ds_def example_matrix_def)
  from iter_resumes [OF constructed_example c n] show ?thesis
    unfolding l1 l2 using constructed_example c n lt by blast
qed

end
